theory Spec2Isabelle
  imports Complex_Main
begin

section \<open>Grid board of the Realm view: placement, dragging and commits\<close>

text \<open>
  This theory embeds the drag-and-drop core of \<^verbatim>\<open>src/views/GridRealm.tsx\<close> and the
  commit handler \<^verbatim>\<open>handleAssetMove\<close> of \<^verbatim>\<open>src/App.tsx\<close>.

  Conventions of the embedding:
  \<^item> World coordinates (JavaScript numbers) are real numbers: arithmetic is exact, and
    the values NaN and infinity do not exist. Grid cells are integers.
  \<^item> A scene object (a \<^verbatim>\<open>THREE.Mesh\<close>) that the source reaches through a reference is
    reached here through its index in \<^verbatim>\<open>buildingsGroup.children\<close>; mutation of the
    object is an update of the list at that index.
  \<^item> The results of the ray casts of three.js are inputs of the handlers: the index
    of the first building hit for pointer-down, the point where the ray meets the
    drop-plane for pointer-move (absent when the ray misses the plane, in which case
    three.js leaves the target vector as it was).
  \<^item> Materials, colours of the buildings, the tooltip and the hover bookkeeping are
    presentation and are not part of the state.
\<close>

subsection \<open>Configuration (GridRealm.tsx, lines 12-13)\<close>

definition GRID_SIZE :: int where
  "GRID_SIZE = 10"

definition CELL_SIZE :: real where
  "CELL_SIZE = 4"

subsection \<open>Data (types.ts, GridRealm.tsx lines 168-179)\<close>

text \<open>
  Of the fields of \<^verbatim>\<open>Asset\<close> only the identifier, the value (it fixes the height of
  the building) and the optional grid position take part in placement; the pair
  \<open>(x, y)\<close> stands for \<^verbatim>\<open>{ x, y }\<close>.
\<close>

record Asset =
  id_asset :: string
  value_asset :: real
  gridPosition :: "(int \<times> int) option"

record Vector3 =
  vec_x :: real
  vec_y :: real
  vec_z :: real

text \<open>A building mesh: its \<^verbatim>\<open>userData\<close> and its position.\<close>

record Mesh =
  assetId :: string
  gridX :: int
  gridY :: int
  originalPos :: Vector3
  position :: Vector3

subsection \<open>Coordinate conversions\<close>

text \<open>\<^verbatim>\<open>Math.floor((v / CELL_SIZE) + GRID_SIZE/2)\<close> (lines 258-259, 352-353).\<close>

definition rawGrid :: "real \<Rightarrow> int" where
  "rawGrid v = \<lfloor>v / CELL_SIZE + real_of_int GRID_SIZE / 2\<rfloor>"

text \<open>\<^verbatim>\<open>Math.max(0, Math.min(GRID_SIZE - 1, raw))\<close> (lines 262-263).\<close>

definition clampGrid :: "int \<Rightarrow> int" where
  "clampGrid raw = max 0 (min (GRID_SIZE - 1) raw)"

text \<open>\<^verbatim>\<open>(g - GRID_SIZE / 2 + 0.5) * CELL_SIZE\<close> (lines 152-153, 265-266).\<close>

definition gridToWorld :: "int \<Rightarrow> real" where
  "gridToWorld g = (real_of_int g - real_of_int GRID_SIZE / 2 + 0.5) * CELL_SIZE"

text \<open>
  The world-to-cell conversion of the snapping path of \<^verbatim>\<open>onPointerMove\<close>: raw index,
  clamp, then the 1-based target \<^verbatim>\<open>gx + 1\<close> (lines 258-263 and 275-276).
\<close>

definition worldToCell :: "real \<times> real \<Rightarrow> int \<times> int" where
  "worldToCell p = (clampGrid (rawGrid (fst p)) + 1, clampGrid (rawGrid (snd p)) + 1)"

text \<open>
  The centre of a 1-based cell: \<^verbatim>\<open>gx = gridPosition.x - 1\<close> followed by the centre
  formula (lines 142-143 and 152-153).
\<close>

definition cellToWorld :: "int \<times> int \<Rightarrow> real \<times> real" where
  "cellToWorld c = (gridToWorld (fst c - 1), gridToWorld (snd c - 1))"

text \<open>
  The drop cell of \<^verbatim>\<open>onPointerUp\<close> (lines 352-353): raw index plus one, with no clamp.
\<close>

definition dropCell :: "Vector3 \<Rightarrow> int \<times> int" where
  "dropCell p = (rawGrid (vec_x p) + 1, rawGrid (vec_z p) + 1)"

definition inGrid :: "int \<times> int \<Rightarrow> bool" where
  "inGrid c = (1 \<le> fst c \<and> fst c \<le> GRID_SIZE \<and> 1 \<le> snd c \<and> snd c \<le> GRID_SIZE)"

subsection \<open>Collision check (lines 278-283 and 356-361)\<close>

definition isOccupied :: "Asset list \<Rightarrow> string \<Rightarrow> int \<times> int \<Rightarrow> bool" where
  "isOccupied current dragId target =
     list_ex (\<lambda>a. id_asset a \<noteq> dragId \<and>
                  (case gridPosition a of
                     None \<Rightarrow> False
                   | Some g \<Rightarrow> fst g = fst target \<and> snd g = snd target)) current"

subsection \<open>Scene construction (lines 137-191)\<close>

text \<open>The two guards of lines 149-150, in the order of the source.\<close>

definition clampIndex :: "int \<Rightarrow> int" where
  "clampIndex g =
     (let g1 = (if g < 0 then 0 else g)
      in if g1 \<ge> GRID_SIZE then GRID_SIZE - 1 else g1)"

text \<open>\<^verbatim>\<open>Math.max(1.5, Math.min(12, Math.log10(asset.value) * 2 - 6))\<close> (line 155).\<close>

definition assetHeight :: "real \<Rightarrow> real" where
  "assetHeight v = max 1.5 (min 12 (log 10 v * 2 - 6))"

definition placeAsset :: "nat \<Rightarrow> Asset \<Rightarrow> Mesh" where
  "placeAsset index asset =
     (let gx0 = (case gridPosition asset of
                   Some g \<Rightarrow> fst g - 1
                 | None \<Rightarrow> int index mod GRID_SIZE);
          gz0 = (case gridPosition asset of
                   Some g \<Rightarrow> snd g - 1
                 | None \<Rightarrow> int index div GRID_SIZE);
          gx = clampIndex gx0;
          gz = clampIndex gz0;
          x = gridToWorld gx;
          z = gridToWorld gz;
          height = assetHeight (value_asset asset);
          pos = \<lparr>vec_x = x, vec_y = height / 2, vec_z = z\<rparr>
      in \<lparr>assetId = id_asset asset, gridX = gx + 1, gridY = gz + 1,
          originalPos = pos, position = pos\<rparr>)"

definition buildMeshes :: "Asset list \<Rightarrow> Mesh list" where
  "buildMeshes current = map (\<lambda>(index, asset). placeAsset index asset) (enumerate 0 current)"

subsection \<open>State of the scene (lines 193-210)\<close>

text \<open>
  \<open>draggedObject\<close> is the index of the mesh that the variable of the same name
  refers to. \<open>isDraggingState\<close> is the React state of the component; the other
  fields are the local variables and objects of the effect.
\<close>

record Scene =
  buildings :: "Mesh list"
  isDragging :: bool
  draggedObject :: "nat option"
  planeIntersectPoint :: Vector3
  controlsEnabled :: bool
  highlightVisible :: bool
  highlightPos :: Vector3
  highlightColor :: nat
  isDraggingState :: bool

definition mountScene :: "Asset list \<Rightarrow> Scene" where
  "mountScene current =
     \<lparr>buildings = buildMeshes current,
      isDragging = False,
      draggedObject = None,
      planeIntersectPoint = \<lparr>vec_x = 0, vec_y = 0, vec_z = 0\<rparr>,
      controlsEnabled = True,
      highlightVisible = False,
      highlightPos = \<lparr>vec_x = 0, vec_y = 0.05, vec_z = 0\<rparr>,
      highlightColor = 0x06b6d4,
      isDraggingState = False\<rparr>"

text \<open>
  The guard \<^verbatim>\<open>isDragging && draggedObject\<close> of lines 248 and 346, giving the index
  and the mesh of the session. An index past the end of the list is no reference to
  an object and counts as no session.
\<close>

definition activeDrag :: "Scene \<Rightarrow> (nat \<times> Mesh) option" where
  "activeDrag s =
     (if isDragging s then
        (case draggedObject s of
           None \<Rightarrow> None
         | Some i \<Rightarrow> if i < length (buildings s) then Some (i, buildings s ! i) else None)
      else None)"

subsection \<open>Pointer-down (lines 212-240)\<close>

text \<open>
  \<open>pick\<close> is \<^verbatim>\<open>intersects[0].object\<close> when the ray meets a building, \<open>None\<close> when
  \<^verbatim>\<open>intersects\<close> is empty. The test \<^verbatim>\<open>object.userData.assetId\<close> fails on the empty
  string.
\<close>

definition liftMesh :: "Mesh \<Rightarrow> Mesh" where
  "liftMesh m = m\<lparr>position := (position m)\<lparr>vec_y := vec_y (position m) + 1\<rparr>\<rparr>"

definition onPointerDown :: "nat option \<Rightarrow> Scene \<Rightarrow> Scene" where
  "onPointerDown pick s =
     (case pick of
        None \<Rightarrow> s
      | Some i \<Rightarrow>
          if i < length (buildings s) \<and> assetId (buildings s ! i) \<noteq> [] then
            s\<lparr>isDragging := True,
              draggedObject := Some i,
              controlsEnabled := False,
              buildings := (buildings s)[i := liftMesh (buildings s ! i)],
              isDraggingState := True,
              highlightVisible := True\<rparr>
          else s)"

subsection \<open>Pointer-move while dragging (lines 242-289)\<close>

text \<open>
  \<open>current\<close> is \<^verbatim>\<open>assetsRef.current\<close>; \<open>hit\<close> is the point \<open>(x, z)\<close> where the ray
  meets the plane \<open>y = 0\<close>. Outside a drag the handler runs the hover logic only,
  which touches nothing of this state.
\<close>

definition onPointerMove :: "Asset list \<Rightarrow> (real \<times> real) option \<Rightarrow> Scene \<Rightarrow> Scene" where
  "onPointerMove current hit s =
     (case activeDrag s of
        None \<Rightarrow> s
      | Some (i, m) \<Rightarrow>
          (let p = (case hit of
                      Some h \<Rightarrow> \<lparr>vec_x = fst h, vec_y = 0, vec_z = snd h\<rparr>
                    | None \<Rightarrow> planeIntersectPoint s);
               gx = clampGrid (rawGrid (vec_x p));
               gz = clampGrid (rawGrid (vec_z p));
               snapX = gridToWorld gx;
               snapZ = gridToWorld gz;
               m' = m\<lparr>position :=
                        \<lparr>vec_x = snapX, vec_y = vec_y (originalPos m) + 1, vec_z = snapZ\<rparr>\<rparr>;
               targetX = gx + 1;
               targetY = gz + 1;
               occupied = isOccupied current (assetId m) (targetX, targetY)
           in s\<lparr>planeIntersectPoint := p,
                buildings := (buildings s)[i := m'],
                highlightPos := \<lparr>vec_x = snapX, vec_y = 0.05, vec_z = snapZ\<rparr>,
                highlightColor := (if occupied then 0xef4444 else 0x06b6d4)\<rparr>))"

subsection \<open>Pointer-up (lines 345-387)\<close>

text \<open>
  \<open>hasCallback\<close> tells whether the prop \<^verbatim>\<open>onAssetMove\<close> was supplied. The second
  component of the result is the list of calls \<^verbatim>\<open>onAssetMove(id, { x, y })\<close> made by the
  handler, in order.
\<close>

definition onPointerUp ::
    "bool \<Rightarrow> Asset list \<Rightarrow> Scene \<Rightarrow> Scene \<times> (string \<times> (int \<times> int)) list" where
  "onPointerUp hasCallback current s =
     (case activeDrag s of
        None \<Rightarrow> (s, [])
      | Some (i, m) \<Rightarrow>
          (let currentX = vec_x (position m);
               currentZ = vec_z (position m);
               target = dropCell (position m);
               occupied = isOccupied current (assetId m) target;
               m' = (if occupied then m\<lparr>position := originalPos m\<rparr>
                     else m\<lparr>originalPos :=
                              \<lparr>vec_x = currentX, vec_y = vec_y (originalPos m),
                               vec_z = currentZ\<rparr>\<rparr>);
               calls = (if \<not> occupied \<and> hasCallback then [(assetId m, target)] else [])
           in (s\<lparr>buildings := (buildings s)[i := m'],
                 draggedObject := None,
                 isDragging := False,
                 controlsEnabled := True,
                 highlightVisible := False,
                 isDraggingState := False\<rparr>, calls)))"

subsection \<open>The asset store (App.tsx, lines 14-24 and 29)\<close>

definition handleAssetMove :: "string \<Rightarrow> int \<times> int \<Rightarrow> Asset list \<Rightarrow> Asset list" where
  "handleAssetMove ident newPos prevAssets =
     map (\<lambda>asset. if id_asset asset = ident then asset\<lparr>gridPosition := Some newPos\<rparr>
                   else asset) prevAssets"

definition applyCalls :: "(string \<times> (int \<times> int)) list \<Rightarrow> Asset list \<Rightarrow> Asset list" where
  "applyCalls calls current = fold (\<lambda>call. handleAssetMove (fst call) (snd call)) calls current"

text \<open>
  The application with the Realm view shown: the asset list held by \<^verbatim>\<open>App\<close> and the
  scene of \<^verbatim>\<open>GridRealm\<close>, which always receives \<^verbatim>\<open>handleAssetMove\<close> as its callback.
  A call of the callback replaces the asset list, and the effect of \<^verbatim>\<open>GridRealm\<close>
  (dependencies \<^verbatim>\<open>[assets, onAssetMove]\<close>, line 433) then builds the scene anew; the
  React state \<open>isDraggingState\<close> survives the rebuild.
\<close>

record App =
  assets :: "Asset list"
  realm :: Scene

datatype event =
    PointerDown "nat option"
  | PointerMove "(real \<times> real) option"
  | PointerUp

definition mountApp :: "Asset list \<Rightarrow> App" where
  "mountApp initial = \<lparr>assets = initial, realm = mountScene initial\<rparr>"

definition remount :: "Asset list \<Rightarrow> Scene \<Rightarrow> Scene" where
  "remount current old = (mountScene current)\<lparr>isDraggingState := isDraggingState old\<rparr>"

fun appStep :: "App \<Rightarrow> event \<Rightarrow> App" where
  "appStep app (PointerDown pick) = app\<lparr>realm := onPointerDown pick (realm app)\<rparr>"
| "appStep app (PointerMove hit) = app\<lparr>realm := onPointerMove (assets app) hit (realm app)\<rparr>"
| "appStep app PointerUp =
     (case onPointerUp True (assets app) (realm app) of
        (s', []) \<Rightarrow> app\<lparr>realm := s'\<rparr>
      | (s', call # calls) \<Rightarrow>
          (let updated = applyCalls (call # calls) (assets app)
           in \<lparr>assets = updated, realm = remount updated s'\<rparr>))"

definition run :: "event list \<Rightarrow> App \<Rightarrow> App" where
  "run events app = foldl appStep app events"

text \<open>
  No two entities with different identifiers have the same explicit cell.
\<close>

definition noDoubleBooking :: "Asset list \<Rightarrow> bool" where
  "noDoubleBooking current =
     list_all (\<lambda>a. list_all (\<lambda>b. id_asset a = id_asset b \<or> gridPosition a = None \<or>
                                   gridPosition a \<noteq> gridPosition b) current) current"

subsection \<open>Sample entities\<close>

text \<open>The entities of the scenarios: two placed ones and one without a cell.\<close>

definition E1 :: Asset where
  "E1 = \<lparr>id_asset = ''E1'', value_asset = 1200000, gridPosition = Some (1, 1)\<rparr>"

definition E2 :: Asset where
  "E2 = \<lparr>id_asset = ''E2'', value_asset = 450000, gridPosition = Some (2, 1)\<rparr>"

definition E3 :: Asset where
  "E3 = \<lparr>id_asset = ''E3'', value_asset = 150000, gridPosition = None\<rparr>"

subsection \<open>Sample sessions\<close>

text \<open>
  Sessions on the board of \<open>E1\<close> and \<open>E2\<close>: \<open>E1\<close> picked up; \<open>E1\<close> carried over the
  cell \<open>(2, 1)\<close> of \<open>E2\<close>; \<open>E1\<close> carried over the empty cell \<open>(7, 3)\<close>. And the
  unplaced \<open>E3\<close>, alone on its board, picked up.
\<close>

definition pickedE1 :: App where
  "pickedE1 = run [PointerDown (Some 0)] (mountApp [E1, E2])"

definition overE2 :: App where
  "overE2 = run [PointerDown (Some 0), PointerMove (Some (-13, -17))] (mountApp [E1, E2])"

definition overFree :: App where
  "overFree = run [PointerDown (Some 0), PointerMove (Some (6, -9))] (mountApp [E1, E2])"

definition pickedE3 :: App where
  "pickedE3 = run [PointerDown (Some 0)] (mountApp [E3])"

subsection \<open>Meshes on cell centres\<close>

text \<open>
  A mesh is on the grid when the drop-cell computation of pointer-up, applied to its
  position and to its recorded anchor, gives a cell of the grid.
\<close>

definition meshOnGrid :: "Mesh \<Rightarrow> bool" where
  "meshOnGrid m = (inGrid (dropCell (position m)) \<and> inGrid (dropCell (originalPos m)))"

definition sceneOnGrid :: "Scene \<Rightarrow> bool" where
  "sceneOnGrid s = list_all meshOnGrid (buildings s)"

text \<open>The equations that evaluate a concrete session.\<close>

lemmas session_eval = run_def mountApp_def mountScene_def buildMeshes_def placeAsset_def
  E1_def E2_def E3_def onPointerDown_def onPointerMove_def onPointerUp_def activeDrag_def
  liftMesh_def clampIndex_def clampGrid_def rawGrid_def gridToWorld_def GRID_SIZE_def
  CELL_SIZE_def Let_def isOccupied_def dropCell_def remount_def applyCalls_def
  handleAssetMove_def

section \<open>Properties of the grid mapper\<close>

lemma rawGrid_centre: "rawGrid (gridToWorld g) = g"
proof -
  have "gridToWorld g / CELL_SIZE + real_of_int GRID_SIZE / 2 = real_of_int g + 1 / 2"
    by (simp add: gridToWorld_def CELL_SIZE_def GRID_SIZE_def field_simps)
  then have "rawGrid (gridToWorld g) = \<lfloor>real_of_int g + 1 / 2\<rfloor>"
    by (simp add: rawGrid_def)
  also have "\<dots> = g"
    by linarith
  finally show ?thesis .
qed

lemma clampGrid_range: "0 \<le> clampGrid g \<and> clampGrid g \<le> GRID_SIZE - 1"
  by (simp add: clampGrid_def GRID_SIZE_def)

lemma clampGrid_id: "0 \<le> g \<Longrightarrow> g \<le> GRID_SIZE - 1 \<Longrightarrow> clampGrid g = g"
  by (simp add: clampGrid_def)

lemma clampIndex_eq: "clampIndex g = clampGrid g"
  by (simp add: clampIndex_def clampGrid_def GRID_SIZE_def Let_def)

text \<open>
  Claim C4. For every cell \<open>(c, r)\<close> with both coordinates in \<open>[1, N]\<close>, the centre of
  the cell is mapped back to \<open>(c, r)\<close> by the world-to-cell conversion.
\<close>

theorem worldToCell_cellToWorld:
  assumes "1 \<le> c" "c \<le> GRID_SIZE" "1 \<le> r" "r \<le> GRID_SIZE"
  shows "worldToCell (cellToWorld (c, r)) = (c, r)"
  using assms
  by (simp add: worldToCell_def cellToWorld_def rawGrid_centre clampGrid_id)

theorem worldToCell_cellToWorld_witness:
  "(1::int) \<le> 3 \<and> 3 \<le> GRID_SIZE \<and> (1::int) \<le> 10 \<and> 10 \<le> GRID_SIZE \<and>
   cellToWorld (3, 10) = (-10, 18) \<and> worldToCell (-10, 18) = (3, 10)"
  using worldToCell_cellToWorld [of 3 10]
  by (simp add: GRID_SIZE_def CELL_SIZE_def cellToWorld_def gridToWorld_def)

section \<open>The collision check and the scene construction\<close>

lemma isOccupied_iff:
  "isOccupied current dragId target \<longleftrightarrow>
     (\<exists>a\<in>set current. id_asset a \<noteq> dragId \<and> gridPosition a = Some target)"
proof -
  have "(case gridPosition a of None \<Rightarrow> False
         | Some g \<Rightarrow> fst g = fst target \<and> snd g = snd target) =
        (gridPosition a = Some target)" for a :: Asset
    by (cases "gridPosition a") (auto simp: prod_eq_iff)
  then show ?thesis
    by (simp add: isOccupied_def list_ex_iff)
qed

text \<open>
  Claim C6. The occupancy check holds exactly when some entity with an identifier
  other than the excluded one has the target as its explicit cell. So a cell held
  only by the excluded entity is never reported occupied, and entities without an
  explicit cell have no influence on the result.
\<close>

theorem isOccupied_spec:
  "(isOccupied current excl target \<longleftrightarrow>
      (\<exists>a\<in>set current. id_asset a \<noteq> excl \<and> gridPosition a = Some target)) \<and>
   ((\<forall>a\<in>set current. gridPosition a = Some target \<longrightarrow> id_asset a = excl) \<longrightarrow>
      \<not> isOccupied current excl target) \<and>
   isOccupied (filter (\<lambda>a. gridPosition a \<noteq> None) current) excl target =
      isOccupied current excl target"
  by (auto simp: isOccupied_iff)

theorem isOccupied_spec_witness:
  "isOccupied [E1, E2, E3] ''E1'' (2, 1) \<and> \<not> isOccupied [E1, E2, E3] ''E1'' (1, 1) \<and>
   \<not> isOccupied [E1, E2, E3] ''E2'' (2, 1) \<and> \<not> isOccupied [E1, E2, E3] ''E1'' (3, 1)"
  using isOccupied_spec [of "[E1, E2, E3]" "''E1''" "(2, 1)"]
    isOccupied_spec [of "[E1, E2, E3]" "''E1''" "(1, 1)"]
  by (simp add: E1_def E2_def E3_def isOccupied_def)

lemma length_buildMeshes: "length (buildMeshes current) = length current"
  by (simp add: buildMeshes_def)

lemma nth_buildMeshes:
  "i < length current \<Longrightarrow> buildMeshes current ! i = placeAsset i (current ! i)"
  by (simp add: buildMeshes_def nth_enumerate_eq)

lemma clampGrid_shift: "clampGrid (g - 1) + 1 = max 1 (min GRID_SIZE g)"
  by (simp add: clampGrid_def GRID_SIZE_def)

lemma clampGrid_shift': "clampGrid g + 1 = max 1 (min GRID_SIZE (g + 1))"
  by (simp add: clampGrid_def GRID_SIZE_def)

lemma placeAsset_cell:
  "(gridX (placeAsset i a), gridY (placeAsset i a)) =
     (case gridPosition a of
        Some g \<Rightarrow> (max 1 (min GRID_SIZE (fst g)), max 1 (min GRID_SIZE (snd g)))
      | None \<Rightarrow> (max 1 (min GRID_SIZE (int i mod GRID_SIZE + 1)),
                 max 1 (min GRID_SIZE (int i div GRID_SIZE + 1))))"
  by (simp add: placeAsset_def Let_def clampIndex_eq clampGrid_shift clampGrid_shift'
      split: option.splits)

lemma placeAsset_inGrid: "inGrid (gridX (placeAsset i a), gridY (placeAsset i a))"
proof -
  have "inGrid (clampGrid u + 1, clampGrid v + 1)" for u v
    using clampGrid_range [of u] clampGrid_range [of v] by (simp add: inGrid_def)
  then show ?thesis
    by (simp add: placeAsset_def Let_def clampIndex_eq)
qed

lemma placeAsset_position:
  "position (placeAsset i a) =
     \<lparr>vec_x = gridToWorld (gridX (placeAsset i a) - 1),
      vec_y = assetHeight (value_asset a) / 2,
      vec_z = gridToWorld (gridY (placeAsset i a) - 1)\<rparr>"
  by (simp add: placeAsset_def Let_def)

lemma placeAsset_fields:
  "assetId (placeAsset i a) = id_asset a"
  "originalPos (placeAsset i a) = position (placeAsset i a)"
  by (simp_all add: placeAsset_def Let_def)

text \<open>
  Claim C10. Building the scene leaves the asset list as it is and makes one mesh per
  entity, at the centre of a cell inside the grid: the explicit cell clamped to
  \<open>[1, N]\<close> on each axis, or, for an entity without a cell, the row-major cell of
  its index, clamped as well.
\<close>

theorem scene_build_in_bounds:
  "assets (mountApp current) = current \<and>
   length (buildings (realm (mountApp current))) = length current \<and>
   (\<forall>i < length current.
      let m = buildings (realm (mountApp current)) ! i in
        inGrid (gridX m, gridY m) \<and>
        assetId m = id_asset (current ! i) \<and>
        (vec_x (position m), vec_z (position m)) = cellToWorld (gridX m, gridY m) \<and>
        (gridX m, gridY m) =
          (case gridPosition (current ! i) of
             Some g \<Rightarrow> (max 1 (min GRID_SIZE (fst g)), max 1 (min GRID_SIZE (snd g)))
           | None \<Rightarrow> (max 1 (min GRID_SIZE (int i mod GRID_SIZE + 1)),
                      max 1 (min GRID_SIZE (int i div GRID_SIZE + 1)))))"
proof -
  have "buildings (realm (mountApp current)) = buildMeshes current"
    by (simp add: mountApp_def mountScene_def)
  moreover have "assets (mountApp current) = current"
    by (simp add: mountApp_def)
  ultimately show ?thesis
    using placeAsset_cell placeAsset_inGrid
    by (simp add: length_buildMeshes nth_buildMeshes Let_def placeAsset_position
        placeAsset_fields cellToWorld_def)
qed

theorem scene_build_in_bounds_witness:
  "(let m = buildings (realm (mountApp [E1\<lparr>gridPosition := Some (0, 14)\<rparr>, E3])) ! 0
    in (gridX m, gridY m) = (1, 10) \<and> vec_x (position m) = -18 \<and> vec_z (position m) = 18) \<and>
   (let m = buildings (realm (mountApp [E1\<lparr>gridPosition := Some (0, 14)\<rparr>, E3])) ! 1
    in (gridX m, gridY m) = (2, 1) \<and> vec_x (position m) = -14 \<and> vec_z (position m) = -18) \<and>
   assets (mountApp [E1\<lparr>gridPosition := Some (0, 14)\<rparr>, E3]) =
     [E1\<lparr>gridPosition := Some (0, 14)\<rparr>, E3]"
  using scene_build_in_bounds [of "[E1\<lparr>gridPosition := Some (0, 14)\<rparr>, E3]"]
  by (simp add: E1_def E3_def Let_def GRID_SIZE_def CELL_SIZE_def cellToWorld_def
      gridToWorld_def All_less_Suc)

section \<open>Release of a drag\<close>

lemma activeDrag_SomeD:
  "activeDrag s = Some (i, m) \<Longrightarrow>
     isDragging s \<and> draggedObject s = Some i \<and> i < length (buildings s) \<and> m = buildings s ! i"
  by (auto simp: activeDrag_def split: if_splits option.splits)

lemma onPointerUp_occupied:
  assumes "activeDrag s = Some (i, m)"
    and "isOccupied current (assetId m) (dropCell (position m))"
  shows "onPointerUp hasCallback current s =
           (s\<lparr>buildings := (buildings s)[i := m\<lparr>position := originalPos m\<rparr>],
              draggedObject := None, isDragging := False, controlsEnabled := True,
              highlightVisible := False, isDraggingState := False\<rparr>, [])"
  using assms by (simp add: onPointerUp_def Let_def)

lemma onPointerUp_free:
  assumes "activeDrag s = Some (i, m)"
    and "\<not> isOccupied current (assetId m) (dropCell (position m))"
  shows "onPointerUp hasCallback current s =
           (s\<lparr>buildings := (buildings s)[i := m\<lparr>originalPos :=
                  \<lparr>vec_x = vec_x (position m), vec_y = vec_y (originalPos m),
                   vec_z = vec_z (position m)\<rparr>\<rparr>],
              draggedObject := None, isDragging := False, controlsEnabled := True,
              highlightVisible := False, isDraggingState := False\<rparr>,
            if hasCallback then [(assetId m, dropCell (position m))] else [])"
  using assms by (simp add: onPointerUp_def Let_def)

lemma onPointerUp_idle: "activeDrag s = None \<Longrightarrow> onPointerUp hasCallback current s = (s, [])"
  by (simp add: onPointerUp_def)

lemma activeDrag_after_up: "activeDrag (fst (onPointerUp hasCallback current s)) = None"
  by (cases "activeDrag s")
     (auto simp: onPointerUp_def Let_def activeDrag_def split: if_splits option.splits)

lemma applyCalls_Nil: "applyCalls [] current = current"
  by (simp add: applyCalls_def)

lemma applyCalls_single:
  "applyCalls [(ident, target)] current = handleAssetMove ident target current"
  by (simp add: applyCalls_def)

lemma handleAssetMove_id: "map id_asset (handleAssetMove ident target current) = map id_asset current"
  by (simp add: handleAssetMove_def)

lemma handleAssetMove_member:
  assumes "a \<in> set (handleAssetMove ident target current)"
  obtains b where "b \<in> set current"
    and "a = (if id_asset b = ident then b\<lparr>gridPosition := Some target\<rparr> else b)"
  using assms unfolding handleAssetMove_def set_map by blast

lemma handleAssetMove_moved:
  assumes "a \<in> set (handleAssetMove ident target current)" and "id_asset a = ident"
  shows "gridPosition a = Some target"
proof -
  from assms(1) obtain b where
    a: "a = (if id_asset b = ident then b\<lparr>gridPosition := Some target\<rparr> else b)"
    by (rule handleAssetMove_member)
  show ?thesis
  proof (cases "id_asset b = ident")
    case True
    with a show ?thesis by simp
  next
    case False
    with a assms(2) show ?thesis by simp
  qed
qed

lemma handleAssetMove_others:
  assumes "a \<in> set (handleAssetMove ident target current)" and "id_asset a \<noteq> ident"
  shows "a \<in> set current"
proof -
  from assms(1) obtain b where b: "b \<in> set current"
    and a: "a = (if id_asset b = ident then b\<lparr>gridPosition := Some target\<rparr> else b)"
    by (rule handleAssetMove_member)
  show ?thesis
  proof (cases "id_asset b = ident")
    case True
    with a assms(2) show ?thesis by simp
  next
    case False
    with a b show ?thesis by simp
  qed
qed

lemma handleAssetMove_same:
  assumes "\<forall>a\<in>set current. id_asset a = ident \<longrightarrow> gridPosition a = Some target"
  shows "handleAssetMove ident target current = current"
  unfolding handleAssetMove_def
proof (rule map_idI)
  fix a :: Asset
  assume "a \<in> set current"
  with assms show "(if id_asset a = ident then a\<lparr>gridPosition := Some target\<rparr> else a) = a"
    by simp
qed

lemma onPointerUp_calls:
  "snd (onPointerUp hasCallback current s) =
     (case activeDrag s of
        None \<Rightarrow> []
      | Some (i, m) \<Rightarrow>
          if \<not> isOccupied current (assetId m) (dropCell (position m)) \<and> hasCallback
          then [(assetId m, dropCell (position m))] else [])"
  by (simp add: onPointerUp_def Let_def split: option.splits)

lemma appStep_up_assets:
  "assets (appStep app PointerUp) =
     applyCalls (snd (onPointerUp True (assets app) (realm app))) (assets app)"
proof (cases "onPointerUp True (assets app) (realm app)")
  case (Pair s' calls)
  then show ?thesis
    by (cases calls) (simp_all add: applyCalls_Nil Let_def)
qed

text \<open>
  Claim C2. When the cell under the dragged mesh is the explicit cell of an entity
  with another identifier, pointer-up calls the callback not at all, leaves the asset
  list as it was, puts the mesh back on its recorded anchor and ends the session.
\<close>

theorem occupied_drop_atomic:
  assumes "activeDrag (realm app) = Some (i, m)"
    and "\<exists>a\<in>set (assets app). id_asset a \<noteq> assetId m \<and>
            gridPosition a = Some (dropCell (position m))"
  shows "snd (onPointerUp hasCallback (assets app) (realm app)) = [] \<and>
         assets (appStep app PointerUp) = assets app \<and>
         buildings (realm (appStep app PointerUp)) =
           (buildings (realm app))[i := m\<lparr>position := originalPos m\<rparr>] \<and>
         position (buildings (realm (appStep app PointerUp)) ! i) = originalPos m \<and>
         activeDrag (realm (appStep app PointerUp)) = None"
proof -
  from assms(2) have occ: "isOccupied (assets app) (assetId m) (dropCell (position m))"
    by (simp add: isOccupied_iff)
  note up = onPointerUp_occupied [OF assms(1) occ]
  from assms(1) have "i < length (buildings (realm app))"
    by (simp add: activeDrag_SomeD)
  then show ?thesis
    by (simp add: up activeDrag_def)
qed

theorem occupied_drop_atomic_witness:
  "activeDrag (realm overE2) = Some (0, buildings (realm overE2) ! 0) \<and>
   assetId (buildings (realm overE2) ! 0) = ''E1'' \<and>
   dropCell (position (buildings (realm overE2) ! 0)) = (2, 1) \<and>
   snd (onPointerUp True (assets overE2) (realm overE2)) = [] \<and>
   assets (appStep overE2 PointerUp) = [E1, E2] \<and>
   position (buildings (realm (appStep overE2 PointerUp)) ! 0) =
     \<lparr>vec_x = -18, vec_y = assetHeight 1200000 / 2, vec_z = -18\<rparr>"
proof -
  let ?m = "buildings (realm overE2) ! 0"
  have session: "activeDrag (realm overE2) = Some (0, ?m)"
    by (simp add: overE2_def session_eval)
  have held: "\<exists>a\<in>set (assets overE2). id_asset a \<noteq> assetId ?m \<and>
      gridPosition a = Some (dropCell (position ?m))"
    by (simp add: overE2_def session_eval)
  have facts: "assetId ?m = ''E1''" "dropCell (position ?m) = (2, 1)"
    "assets overE2 = [E1, E2]" "0 < length (buildings (realm overE2))"
    "originalPos ?m = \<lparr>vec_x = -18, vec_y = assetHeight 1200000 / 2, vec_z = -18\<rparr>"
    by (simp_all add: overE2_def session_eval)
  from occupied_drop_atomic [OF session held, of True] session facts show ?thesis
    by (simp del: appStep.simps)
qed

lemma dropCell_snap:
  "dropCell \<lparr>vec_x = gridToWorld gx, vec_y = h, vec_z = gridToWorld gz\<rparr> = (gx + 1, gz + 1)"
  by (simp add: dropCell_def rawGrid_centre)

lemma dropCell_centre:
  assumes "(vec_x v, vec_z v) = cellToWorld c"
  shows "dropCell v = c"
proof -
  from assms have "vec_x v = gridToWorld (fst c - 1)" and "vec_z v = gridToWorld (snd c - 1)"
    by (simp_all add: cellToWorld_def)
  then show ?thesis
    by (simp add: dropCell_def rawGrid_centre)
qed

lemma commit_free:
  assumes "activeDrag (realm app) = Some (i, m)"
    and "dropCell (position m) = c"
    and "\<not> (\<exists>a\<in>set (assets app). id_asset a \<noteq> assetId m \<and> gridPosition a = Some c)"
  shows "snd (onPointerUp True (assets app) (realm app)) = [(assetId m, c)]"
    and "assets (appStep app PointerUp) = handleAssetMove (assetId m) c (assets app)"
proof -
  from assms(2,3) have free: "\<not> isOccupied (assets app) (assetId m) (dropCell (position m))"
    by (simp add: isOccupied_iff)
  note up = onPointerUp_free [OF assms(1) free, of True]
  show "snd (onPointerUp True (assets app) (realm app)) = [(assetId m, c)]"
    by (simp add: up assms(2))
  show "assets (appStep app PointerUp) = handleAssetMove (assetId m) c (assets app)"
    by (simp add: up applyCalls_single Let_def assms(2))
qed

lemma onPointerMove_active:
  assumes "activeDrag s = Some (i, m)"
  shows "buildings (onPointerMove current (Some p) s) =
           (buildings s)[i := m\<lparr>position :=
              \<lparr>vec_x = gridToWorld (clampGrid (rawGrid (fst p))),
               vec_y = vec_y (originalPos m) + 1,
               vec_z = gridToWorld (clampGrid (rawGrid (snd p)))\<rparr>\<rparr>]"
  using assms by (simp add: onPointerMove_def Let_def)

lemma onPointerMove_dropCell:
  assumes "activeDrag s = Some (i, m)"
  shows "dropCell (position (buildings (onPointerMove current (Some p) s) ! i)) = worldToCell p"
  using activeDrag_SomeD [OF assms]
  by (simp add: onPointerMove_active [OF assms] dropCell_snap worldToCell_def)

lemma activeDrag_after_move:
  assumes "activeDrag s = Some (i, m)"
  shows "activeDrag (onPointerMove current (Some p) s) =
           Some (i, buildings (onPointerMove current (Some p) s) ! i)"
    and "assetId (buildings (onPointerMove current (Some p) s) ! i) = assetId m"
  using activeDrag_SomeD [OF assms]
  by (simp_all add: onPointerMove_active [OF assms] activeDrag_def onPointerMove_def assms Let_def)

text \<open>
  Claim C3. When the dragged mesh stands on the centre of a cell that no entity with
  another identifier has as its explicit cell, pointer-up calls the callback exactly
  once, with the identifier of the mesh and that cell; the asset list then holds the
  same entities in the same order, every entity with that identifier has the cell as
  its explicit cell, and the other entities are as before. In particular, after a
  pointer-move to any point the release commits the cell of that point, when that
  cell is free.
\<close>

theorem successful_commit:
  assumes "activeDrag (realm app) = Some (i, m)"
  shows "((vec_x (position m), vec_z (position m)) = cellToWorld c \<and>
          \<not> (\<exists>a\<in>set (assets app). id_asset a \<noteq> assetId m \<and> gridPosition a = Some c) \<longrightarrow>
            snd (onPointerUp True (assets app) (realm app)) = [(assetId m, c)] \<and>
            assets (appStep app PointerUp) = handleAssetMove (assetId m) c (assets app) \<and>
            map id_asset (assets (appStep app PointerUp)) = map id_asset (assets app) \<and>
            (\<forall>a\<in>set (assets (appStep app PointerUp)).
               if id_asset a = assetId m then gridPosition a = Some c
               else a \<in> set (assets app))) \<and>
         (\<not> (\<exists>a\<in>set (assets app). id_asset a \<noteq> assetId m \<and>
                gridPosition a = Some (worldToCell p)) \<longrightarrow>
            snd (onPointerUp True (assets app) (realm (appStep app (PointerMove (Some p))))) =
              [(assetId m, worldToCell p)] \<and>
            assets (run [PointerMove (Some p), PointerUp] app) =
              handleAssetMove (assetId m) (worldToCell p) (assets app))"
proof (intro conjI impI)
  assume h: "(vec_x (position m), vec_z (position m)) = cellToWorld c \<and>
          \<not> (\<exists>a\<in>set (assets app). id_asset a \<noteq> assetId m \<and> gridPosition a = Some c)"
  then have cell: "dropCell (position m) = c"
    by (simp add: dropCell_centre)
  from h have free: "\<not> (\<exists>a\<in>set (assets app). id_asset a \<noteq> assetId m \<and>
      gridPosition a = Some c)"
    by simp
  show calls: "snd (onPointerUp True (assets app) (realm app)) = [(assetId m, c)]"
    using assms cell free by (rule commit_free(1))
  show step: "assets (appStep app PointerUp) = handleAssetMove (assetId m) c (assets app)"
    using assms cell free by (rule commit_free(2))
  show "map id_asset (assets (appStep app PointerUp)) = map id_asset (assets app)"
    by (simp only: step handleAssetMove_id)
  show "\<forall>a\<in>set (assets (appStep app PointerUp)).
      if id_asset a = assetId m then gridPosition a = Some c else a \<in> set (assets app)"
    unfolding step using handleAssetMove_moved handleAssetMove_others by meson
next
  assume free: "\<not> (\<exists>a\<in>set (assets app). id_asset a \<noteq> assetId m \<and>
      gridPosition a = Some (worldToCell p))"
  let ?app = "appStep app (PointerMove (Some p))"
  let ?m = "buildings (realm ?app) ! i"
  have kept: "assets ?app = assets app"
    by simp
  have session: "activeDrag (realm ?app) = Some (i, ?m)"
    using activeDrag_after_move(1) [OF assms] by simp
  have ident: "assetId ?m = assetId m"
    using activeDrag_after_move(2) [OF assms] by simp
  have cell: "dropCell (position ?m) = worldToCell p"
    using onPointerMove_dropCell [OF assms] by simp
  have free': "\<not> (\<exists>a\<in>set (assets ?app). id_asset a \<noteq> assetId ?m \<and>
      gridPosition a = Some (worldToCell p))"
    unfolding kept ident by (rule free)
  from commit_free(1) [OF session cell free']
  show "snd (onPointerUp True (assets app) (realm ?app)) = [(assetId m, worldToCell p)]"
    by (simp only: kept ident)
  from commit_free(2) [OF session cell free']
  have "assets (appStep ?app PointerUp) =
      handleAssetMove (assetId m) (worldToCell p) (assets app)"
    by (simp only: kept ident)
  then show "assets (run [PointerMove (Some p), PointerUp] app) =
      handleAssetMove (assetId m) (worldToCell p) (assets app)"
    by (simp add: run_def del: appStep.simps)
qed

theorem successful_commit_witness:
  "activeDrag (realm overFree) = Some (0, buildings (realm overFree) ! 0) \<and>
   (vec_x (position (buildings (realm overFree) ! 0)),
    vec_z (position (buildings (realm overFree) ! 0))) = cellToWorld (7, 3) \<and>
   snd (onPointerUp True (assets overFree) (realm overFree)) = [(''E1'', (7, 3))] \<and>
   assets (appStep overFree PointerUp) = [E1\<lparr>gridPosition := Some (7, 3)\<rparr>, E2] \<and>
   worldToCell (-1, -3) = (5, 5) \<and>
   assets (run [PointerMove (Some (-1, -3)), PointerUp] overFree) =
     [E1\<lparr>gridPosition := Some (5, 5)\<rparr>, E2]"
proof -
  let ?m = "buildings (realm overFree) ! 0"
  have session: "activeDrag (realm overFree) = Some (0, ?m)"
    by (simp add: overFree_def session_eval)
  have centre: "(vec_x (position ?m), vec_z (position ?m)) = cellToWorld (7, 3)"
    by (simp add: overFree_def session_eval cellToWorld_def)
  have free: "\<not> (\<exists>a\<in>set (assets overFree). id_asset a \<noteq> assetId ?m \<and>
      gridPosition a = Some (7, 3))"
    by (simp add: overFree_def session_eval)
  have cell: "worldToCell (-1, -3) = (5, 5)"
    by (simp add: worldToCell_def session_eval)
  have free': "\<not> (\<exists>a\<in>set (assets overFree). id_asset a \<noteq> assetId ?m \<and>
      gridPosition a = Some (worldToCell (-1, -3)))"
    unfolding cell by (simp add: overFree_def session_eval)
  have facts: "assetId ?m = ''E1''" "assets overFree = [E1, E2]"
    by (simp_all add: overFree_def session_eval)
  note t = successful_commit [OF session, of "(7, 3)" "(-1, -3)"]
  from t centre free have first: "snd (onPointerUp True (assets overFree) (realm overFree)) =
      [(assetId ?m, (7, 3))] \<and>
      assets (appStep overFree PointerUp) = handleAssetMove (assetId ?m) (7, 3) (assets overFree)"
    by blast
  from t free' have second: "assets (run [PointerMove (Some (-1, -3)), PointerUp] overFree) =
      handleAssetMove (assetId ?m) (worldToCell (-1, -3)) (assets overFree)"
    by blast
  from first second session centre cell facts show ?thesis
    by (simp add: handleAssetMove_def E1_def E2_def del: appStep.simps)
qed

text \<open>
  Claim C8, as stated, fails: the unplaced entity \<open>E3\<close> is shown on cell \<open>(1, 1)\<close>;
  picked up and released there, it is committed, and the asset list, which gave it
  no cell, now gives it the cell \<open>(1, 1)\<close>.
\<close>

theorem origin_drop_changes_table:
  "activeDrag (realm pickedE3) = Some (0, buildings (realm pickedE3) ! 0) \<and>
   (vec_x (position (buildings (realm pickedE3) ! 0)),
    vec_z (position (buildings (realm pickedE3) ! 0))) =
     cellToWorld (gridX (buildings (realm pickedE3) ! 0), gridY (buildings (realm pickedE3) ! 0)) \<and>
   dropCell (position (buildings (realm pickedE3) ! 0)) =
     (gridX (buildings (realm pickedE3) ! 0), gridY (buildings (realm pickedE3) ! 0)) \<and>
   assets pickedE3 = [E3] \<and>
   assets (appStep pickedE3 PointerUp) = [E3\<lparr>gridPosition := Some (1, 1)\<rparr>] \<and>
   assets (appStep pickedE3 PointerUp) \<noteq> assets pickedE3"
  by (simp add: pickedE3_def session_eval cellToWorld_def)

text \<open>
  Claim C8, amended. When the mesh is released on the centre of its origin cell and
  that cell is the explicit cell of every entity with the identifier of the mesh,
  pointer-up and the commit it may make leave the asset list as it was; the commit
  is made, with that same cell, unless an entity with another identifier has the
  cell too.
\<close>

theorem origin_drop_idempotent:
  assumes "activeDrag (realm app) = Some (i, m)"
    and "(vec_x (position m), vec_z (position m)) = cellToWorld (gridX m, gridY m)"
    and "\<forall>a\<in>set (assets app). id_asset a = assetId m \<longrightarrow>
           gridPosition a = Some (gridX m, gridY m)"
  shows "assets (appStep app PointerUp) = assets app \<and>
         snd (onPointerUp True (assets app) (realm app)) =
           (if \<exists>a\<in>set (assets app). id_asset a \<noteq> assetId m \<and>
                 gridPosition a = Some (gridX m, gridY m)
            then [] else [(assetId m, (gridX m, gridY m))])"
proof -
  from assms(2) have cell: "dropCell (position m) = (gridX m, gridY m)"
    by (rule dropCell_centre)
  have "handleAssetMove (assetId m) (gridX m, gridY m) (assets app) = assets app"
    using assms(3) by (rule handleAssetMove_same)
  then have "assets (appStep app PointerUp) = assets app"
    by (simp add: appStep_up_assets onPointerUp_calls assms(1) cell applyCalls_Nil
        applyCalls_single del: appStep.simps)
  moreover have "snd (onPointerUp True (assets app) (realm app)) =
           (if \<exists>a\<in>set (assets app). id_asset a \<noteq> assetId m \<and>
                 gridPosition a = Some (gridX m, gridY m)
            then [] else [(assetId m, (gridX m, gridY m))])"
    by (simp add: onPointerUp_calls assms(1) cell isOccupied_iff)
  ultimately show ?thesis
    by simp
qed

theorem origin_drop_idempotent_witness:
  "activeDrag (realm pickedE1) = Some (0, buildings (realm pickedE1) ! 0) \<and>
   (vec_x (position (buildings (realm pickedE1) ! 0)),
    vec_z (position (buildings (realm pickedE1) ! 0))) = cellToWorld (1, 1) \<and>
   gridX (buildings (realm pickedE1) ! 0) = 1 \<and> gridY (buildings (realm pickedE1) ! 0) = 1 \<and>
   snd (onPointerUp True (assets pickedE1) (realm pickedE1)) = [(''E1'', (1, 1))] \<and>
   assets (appStep pickedE1 PointerUp) = assets pickedE1"
proof -
  let ?m = "buildings (realm pickedE1) ! 0"
  have session: "activeDrag (realm pickedE1) = Some (0, ?m)"
    by (simp add: pickedE1_def session_eval)
  have cell: "gridX ?m = 1" "gridY ?m = 1"
    by (simp_all add: pickedE1_def session_eval)
  have centre: "(vec_x (position ?m), vec_z (position ?m)) = cellToWorld (1, 1)"
    by (simp add: pickedE1_def session_eval cellToWorld_def)
  have stored: "\<forall>a\<in>set (assets pickedE1). id_asset a = assetId ?m \<longrightarrow>
      gridPosition a = Some (gridX ?m, gridY ?m)"
    by (simp add: pickedE1_def session_eval)
  have calls: "snd (onPointerUp True (assets pickedE1) (realm pickedE1)) = [(''E1'', (1, 1))]"
    by (simp add: pickedE1_def session_eval)
  have "assets (appStep pickedE1 PointerUp) = assets pickedE1 \<and>
         snd (onPointerUp True (assets pickedE1) (realm pickedE1)) =
           (if \<exists>a\<in>set (assets pickedE1). id_asset a \<noteq> assetId ?m \<and>
                 gridPosition a = Some (gridX ?m, gridY ?m)
            then [] else [(assetId ?m, (gridX ?m, gridY ?m))])"
    using session _ stored by (rule origin_drop_idempotent) (simp add: cell centre)
  with session cell centre calls show ?thesis
    by simp
qed

text \<open>
  Claim C9, as stated, fails. The handlers read the asset list through
  \<^verbatim>\<open>assetsRef.current\<close>, which may be newer than the list the scene was built from.
  \<open>E1\<close> is picked up and then leaves the asset list; pointer-up calls the callback
  with the identifier of \<open>E1\<close> all the same.
\<close>

theorem stale_entity_commit:
  "activeDrag (realm pickedE1) = Some (0, buildings (realm pickedE1) ! 0) \<and>
   assetId (buildings (realm pickedE1) ! 0) = ''E1'' \<and>
   ''E1'' \<notin> id_asset ` set [E2] \<and>
   snd (onPointerUp True [E2] (realm pickedE1)) = [(''E1'', (1, 1))]"
  by (simp add: pickedE1_def session_eval)

text \<open>
  Claim C9, amended. When no entity of the current list has the identifier of the
  dragged mesh, pointer-up ends the session and the dragging state; the callback is
  called for that identifier exactly when it was supplied and no entity has the
  release cell as its explicit cell; applying the calls leaves the asset list as it
  was.
\<close>

theorem stale_entity_release:
  assumes "activeDrag s = Some (i, m)"
    and "assetId m \<notin> id_asset ` set current"
  shows "activeDrag (fst (onPointerUp hasCallback current s)) = None \<and>
         \<not> isDragging (fst (onPointerUp hasCallback current s)) \<and>
         draggedObject (fst (onPointerUp hasCallback current s)) = None \<and>
         \<not> isDraggingState (fst (onPointerUp hasCallback current s)) \<and>
         snd (onPointerUp hasCallback current s) =
           (if hasCallback \<and> \<not> (\<exists>a\<in>set current. gridPosition a = Some (dropCell (position m)))
            then [(assetId m, dropCell (position m))] else []) \<and>
         applyCalls (snd (onPointerUp hasCallback current s)) current = current"
proof -
  have ne: "\<forall>a\<in>set current. id_asset a \<noteq> assetId m"
    using assms(2) by (metis imageI)
  have occ: "isOccupied current (assetId m) (dropCell (position m)) \<longleftrightarrow>
      (\<exists>a\<in>set current. gridPosition a = Some (dropCell (position m)))"
    using ne by (auto simp: isOccupied_iff)
  have same: "handleAssetMove (assetId m) (dropCell (position m)) current = current"
    by (rule handleAssetMove_same) (simp add: ne)
  have flags: "\<not> isDragging (fst (onPointerUp hasCallback current s)) \<and>
         draggedObject (fst (onPointerUp hasCallback current s)) = None \<and>
         \<not> isDraggingState (fst (onPointerUp hasCallback current s))"
    by (simp add: onPointerUp_def assms(1) Let_def)
  have calls: "snd (onPointerUp hasCallback current s) =
           (if hasCallback \<and> \<not> (\<exists>a\<in>set current. gridPosition a = Some (dropCell (position m)))
            then [(assetId m, dropCell (position m))] else [])"
    by (simp add: onPointerUp_calls assms(1) occ)
  have "applyCalls (snd (onPointerUp hasCallback current s)) current = current"
    by (simp add: calls applyCalls_Nil applyCalls_single same)
  with flags calls activeDrag_after_up show ?thesis
    by blast
qed

theorem stale_entity_release_witness:
  "activeDrag (realm pickedE1) = Some (0, buildings (realm pickedE1) ! 0) \<and>
   assetId (buildings (realm pickedE1) ! 0) \<notin> id_asset ` set [E2] \<and>
   \<not> isDragging (fst (onPointerUp True [E2] (realm pickedE1))) \<and>
   snd (onPointerUp True [E2] (realm pickedE1)) = [(''E1'', (1, 1))] \<and>
   applyCalls (snd (onPointerUp True [E2] (realm pickedE1))) [E2] = [E2]"
  using stale_entity_release [of "realm pickedE1" 0 "buildings (realm pickedE1) ! 0" "[E2]" True]
  by (simp add: pickedE1_def session_eval)

section \<open>Pointer-down during a drag\<close>

text \<open>
  Claim C7, as stated, fails: while \<open>E1\<close> is dragged, a pointer-down that hits the
  building of \<open>E2\<close> makes \<open>E2\<close> the dragged entity, with another anchor.
\<close>

theorem pointerDown_replaces_session:
  "activeDrag (realm pickedE1) = Some (0, buildings (realm pickedE1) ! 0) \<and>
   assetId (buildings (realm pickedE1) ! 0) = ''E1'' \<and>
   isDragging (onPointerDown (Some 1) (realm pickedE1)) \<and>
   draggedObject (onPointerDown (Some 1) (realm pickedE1)) = Some 1 \<and>
   assetId (buildings (onPointerDown (Some 1) (realm pickedE1)) ! 1) = ''E2'' \<and>
   originalPos (buildings (onPointerDown (Some 1) (realm pickedE1)) ! 1) \<noteq>
     originalPos (buildings (realm pickedE1) ! 0)"
  by (simp add: pickedE1_def session_eval)

text \<open>
  Claim C7, amended. While a session is active, a pointer-down that hits no building,
  or a building with an empty identifier, changes nothing. A pointer-down that hits
  a building with an identifier makes that building the one dragged, lifted by one
  unit, with its own identifier and anchor: the identifier and the anchor of the
  session are the same as before when the building hit is the one already dragged.
  There is one session afterwards in every case.
\<close>

theorem pointerDown_while_dragging:
  assumes "activeDrag s = Some (i, m)"
  shows "(pick = None \<longrightarrow> onPointerDown pick s = s) \<and>
         (\<forall>j. pick = Some j \<and> (j \<ge> length (buildings s) \<or> assetId (buildings s ! j) = []) \<longrightarrow>
              onPointerDown pick s = s) \<and>
         (\<forall>j. pick = Some j \<and> j < length (buildings s) \<and> assetId (buildings s ! j) \<noteq> [] \<longrightarrow>
              activeDrag (onPointerDown pick s) = Some (j, liftMesh (buildings s ! j)) \<and>
              assetId (liftMesh (buildings s ! j)) = assetId (buildings s ! j) \<and>
              originalPos (liftMesh (buildings s ! j)) = originalPos (buildings s ! j) \<and>
              (j = i \<longrightarrow> assetId (liftMesh (buildings s ! j)) = assetId m \<and>
                         originalPos (liftMesh (buildings s ! j)) = originalPos m))"
  using activeDrag_SomeD [OF assms]
  by (auto simp: onPointerDown_def activeDrag_def liftMesh_def)

theorem pointerDown_while_dragging_witness:
  "activeDrag (realm pickedE1) = Some (0, buildings (realm pickedE1) ! 0) \<and>
   onPointerDown None (realm pickedE1) = realm pickedE1 \<and>
   onPointerDown (Some 7) (realm pickedE1) = realm pickedE1 \<and>
   draggedObject (onPointerDown (Some 0) (realm pickedE1)) = Some 0 \<and>
   assetId (buildings (onPointerDown (Some 0) (realm pickedE1)) ! 0) = ''E1'' \<and>
   originalPos (buildings (onPointerDown (Some 0) (realm pickedE1)) ! 0) =
     originalPos (buildings (realm pickedE1) ! 0)"
  using pointerDown_while_dragging [of "realm pickedE1" 0 "buildings (realm pickedE1) ! 0" None]
    pointerDown_while_dragging [of "realm pickedE1" 0 "buildings (realm pickedE1) ! 0" "Some 7"]
    pointerDown_while_dragging [of "realm pickedE1" 0 "buildings (realm pickedE1) ! 0" "Some 0"]
  by (simp add: pickedE1_def session_eval)

section \<open>Invariants of the application\<close>

lemma noDoubleBooking_iff:
  "noDoubleBooking current \<longleftrightarrow>
     (\<forall>a\<in>set current. \<forall>b\<in>set current.
        id_asset a \<noteq> id_asset b \<and> gridPosition a \<noteq> None \<longrightarrow> gridPosition a \<noteq> gridPosition b)"
  unfolding noDoubleBooking_def list_all_iff by meson

lemma handleAssetMove_noDoubleBooking:
  assumes inv: "noDoubleBooking current"
    and free: "\<not> isOccupied current ident target"
  shows "noDoubleBooking (handleAssetMove ident target current)"
  unfolding noDoubleBooking_iff
proof (intro ballI impI)
  fix a b
  assume a: "a \<in> set (handleAssetMove ident target current)"
    and b: "b \<in> set (handleAssetMove ident target current)"
    and ab: "id_asset a \<noteq> id_asset b \<and> gridPosition a \<noteq> None"
  from free have elsewhere: "gridPosition c \<noteq> Some target"
    if "c \<in> set current" "id_asset c \<noteq> ident" for c
    using that by (auto simp: isOccupied_iff)
  show "gridPosition a \<noteq> gridPosition b"
  proof (cases "id_asset a = ident")
    case True
    with ab have nb: "id_asset b \<noteq> ident" by auto
    from a True have "gridPosition a = Some target"
      by (rule handleAssetMove_moved)
    moreover from b nb have "b \<in> set current"
      by (rule handleAssetMove_others)
    then have "gridPosition b \<noteq> Some target"
      using nb by (rule elsewhere)
    ultimately show ?thesis by simp
  next
    case na: False
    with a have a0: "a \<in> set current"
      by (rule handleAssetMove_others)
    show ?thesis
    proof (cases "id_asset b = ident")
      case True
      with b have "gridPosition b = Some target"
        by (rule handleAssetMove_moved)
      moreover from a0 na have "gridPosition a \<noteq> Some target"
        by (rule elsewhere)
      ultimately show ?thesis by simp
    next
      case False
      with b have "b \<in> set current"
        by (rule handleAssetMove_others)
      with inv a0 ab show ?thesis
        unfolding noDoubleBooking_iff by blast
    qed
  qed
qed

lemma appStep_noDoubleBooking:
  assumes "noDoubleBooking (assets app)"
  shows "noDoubleBooking (assets (appStep app e))"
proof (cases e)
  case (PointerDown pick)
  with assms show ?thesis by simp
next
  case (PointerMove hit)
  with assms show ?thesis by simp
next
  case PointerUp
  show ?thesis
  proof (cases "activeDrag (realm app)")
    case None
    with assms show ?thesis
      unfolding PointerUp appStep_up_assets onPointerUp_calls by (simp add: applyCalls_Nil)
  next
    case (Some im)
    obtain i m where im: "im = (i, m)" by (cases im)
    show ?thesis
    proof (cases "isOccupied (assets app) (assetId m) (dropCell (position m))")
      case True
      with assms Some im show ?thesis
        unfolding PointerUp appStep_up_assets onPointerUp_calls by (simp add: applyCalls_Nil)
    next
      case False
      with assms have "noDoubleBooking
          (handleAssetMove (assetId m) (dropCell (position m)) (assets app))"
        by (rule handleAssetMove_noDoubleBooking)
      with False Some im show ?thesis
        unfolding PointerUp appStep_up_assets onPointerUp_calls by (simp add: applyCalls_single)
    qed
  qed
qed

lemma appStep_ids: "map id_asset (assets (appStep app e)) = map id_asset (assets app)"
proof (cases e)
  case (PointerDown pick)
  then show ?thesis by simp
next
  case (PointerMove hit)
  then show ?thesis by simp
next
  case PointerUp
  show ?thesis
    unfolding PointerUp appStep_up_assets onPointerUp_calls
    by (simp add: applyCalls_Nil applyCalls_single handleAssetMove_id split: option.splits)
qed

lemma run_ids: "map id_asset (assets (run events app)) = map id_asset (assets app)"
  unfolding run_def
proof (induction events arbitrary: app)
  case Nil
  show ?case by simp
next
  case (Cons e events)
  have "map id_asset (assets (foldl appStep (appStep app e) events)) =
      map id_asset (assets (appStep app e))"
    by (rule Cons.IH)
  then show ?case
    by (simp only: foldl_Cons appStep_ids)
qed

lemma run_noDoubleBooking:
  "noDoubleBooking (assets app) \<Longrightarrow> noDoubleBooking (assets (run events app))"
  unfolding run_def
proof (induction events arbitrary: app)
  case Nil
  then show ?case by simp
next
  case (Cons e events)
  from Cons.prems have "noDoubleBooking (assets (appStep app e))"
    by (rule appStep_noDoubleBooking)
  then have "noDoubleBooking (assets (foldl appStep (appStep app e) events))"
    by (rule Cons.IH)
  then show ?case by simp
qed

text \<open>
  Claim C1. If no two entities with different identifiers share an explicit cell,
  the same holds after every sequence of pointer events, whatever the commits made
  on the way; the entities of the list and their order stay the same throughout.
\<close>

theorem no_double_booking:
  assumes "noDoubleBooking (assets app)"
  shows "noDoubleBooking (assets (run events app)) \<and>
         map id_asset (assets (run events app)) = map id_asset (assets app)"
  using assms by (simp add: run_noDoubleBooking run_ids)

theorem no_double_booking_witness:
  "noDoubleBooking (assets (mountApp [E1, E2])) \<and>
   assets (run [PointerDown (Some 0), PointerMove (Some (-1, -3)), PointerUp,
                PointerDown (Some 1), PointerMove (Some (-2, -2)), PointerUp,
                PointerDown (Some 1), PointerMove (Some (-17, -19)), PointerUp]
             (mountApp [E1, E2])) =
     [E1\<lparr>gridPosition := Some (5, 5)\<rparr>, E2\<lparr>gridPosition := Some (1, 1)\<rparr>] \<and>
   noDoubleBooking [E1\<lparr>gridPosition := Some (5, 5)\<rparr>, E2\<lparr>gridPosition := Some (1, 1)\<rparr>]"
proof -
  let ?events = "[PointerDown (Some 0), PointerMove (Some (-1, -3)), PointerUp,
                  PointerDown (Some 1), PointerMove (Some (-2, -2)), PointerUp,
                  PointerDown (Some 1), PointerMove (Some (-17, -19)), PointerUp]"
  have start: "noDoubleBooking (assets (mountApp [E1, E2]))"
    by (simp add: noDoubleBooking_def session_eval)
  have final: "assets (run ?events (mountApp [E1, E2])) =
      [E1\<lparr>gridPosition := Some (5, 5)\<rparr>, E2\<lparr>gridPosition := Some (1, 1)\<rparr>]"
    by (simp add: session_eval)
  from no_double_booking [OF start, of ?events] start final show ?thesis
    by simp
qed

lemma inGrid_clamp: "inGrid (clampGrid u + 1, clampGrid v + 1)"
  using clampGrid_range [of u] clampGrid_range [of v] by (simp add: inGrid_def)

lemma inGrid_worldToCell: "inGrid (worldToCell p)"
  by (simp add: worldToCell_def inGrid_clamp)

lemma meshOnGrid_placeAsset: "meshOnGrid (placeAsset index asset)"
  by (simp add: meshOnGrid_def placeAsset_def Let_def dropCell_snap clampIndex_eq inGrid_clamp)

lemma sceneOnGrid_mountScene: "sceneOnGrid (mountScene current)"
  by (auto simp: sceneOnGrid_def mountScene_def buildMeshes_def list_all_iff
      meshOnGrid_placeAsset)

lemma list_all_update:
  assumes "list_all P xs" and "P v"
  shows "list_all P (xs[i := v])"
proof -
  have "set (xs[i := v]) \<subseteq> insert v (set xs)"
    by (rule set_update_subset_insert)
  with assms show ?thesis
    unfolding list_all_iff by blast
qed

lemma activeDrag_mesh:
  "activeDrag s = Some (i, m) \<Longrightarrow> sceneOnGrid s \<Longrightarrow> meshOnGrid m"
  by (auto simp: sceneOnGrid_def list_all_length dest: activeDrag_SomeD)

lemma meshOnGrid_liftMesh: "meshOnGrid m \<Longrightarrow> meshOnGrid (liftMesh m)"
  by (simp add: meshOnGrid_def liftMesh_def dropCell_def)

lemma sceneOnGrid_onPointerDown:
  assumes "sceneOnGrid s"
  shows "sceneOnGrid (onPointerDown pick s)"
proof (cases pick)
  case None
  with assms show ?thesis by (simp add: onPointerDown_def)
next
  case (Some j)
  show ?thesis
  proof (cases "j < length (buildings s) \<and> assetId (buildings s ! j) \<noteq> []")
    case True
    with assms have "meshOnGrid (liftMesh (buildings s ! j))"
      by (simp add: sceneOnGrid_def list_all_length meshOnGrid_liftMesh)
    with assms True Some show ?thesis
      by (simp add: onPointerDown_def sceneOnGrid_def list_all_update)
  next
    case False
    then have "onPointerDown pick s = s"
      unfolding onPointerDown_def Some by (simp only: option.case if_False)
    with assms show ?thesis by simp
  qed
qed

lemma sceneOnGrid_onPointerMove:
  assumes "sceneOnGrid s"
  shows "sceneOnGrid (onPointerMove current hit s)"
proof (cases "activeDrag s")
  case None
  with assms show ?thesis by (simp add: onPointerMove_def)
next
  case (Some im)
  obtain i m where im: "im = (i, m)" by (cases im)
  from Some im assms have "meshOnGrid m"
    by (simp add: activeDrag_mesh)
  then have "meshOnGrid (m\<lparr>position := \<lparr>vec_x = gridToWorld (clampGrid u),
      vec_y = h, vec_z = gridToWorld (clampGrid v)\<rparr>\<rparr>)" for u v h
    by (simp add: meshOnGrid_def dropCell_snap inGrid_clamp)
  with assms Some im show ?thesis
    by (simp add: onPointerMove_def Let_def sceneOnGrid_def list_all_update)
qed

lemma sceneOnGrid_onPointerUp:
  assumes "sceneOnGrid s"
  shows "sceneOnGrid (fst (onPointerUp hasCallback current s))"
proof (cases "activeDrag s")
  case None
  with assms show ?thesis by (simp add: onPointerUp_def)
next
  case (Some im)
  obtain i m where im: "im = (i, m)" by (cases im)
  from Some im assms have m: "meshOnGrid m"
    by (simp add: activeDrag_mesh)
  then have "meshOnGrid (m\<lparr>position := originalPos m\<rparr>)"
    by (simp add: meshOnGrid_def)
  moreover from m have "meshOnGrid (m\<lparr>originalPos := \<lparr>vec_x = vec_x (position m),
      vec_y = vec_y (originalPos m), vec_z = vec_z (position m)\<rparr>\<rparr>)"
    by (simp add: meshOnGrid_def dropCell_def)
  ultimately show ?thesis
    using assms Some im
    by (simp add: onPointerUp_def Let_def sceneOnGrid_def list_all_update)
qed

lemma sceneOnGrid_remount: "sceneOnGrid (remount current old)"
  using sceneOnGrid_mountScene [of current] by (simp add: remount_def sceneOnGrid_def)

lemma sceneOnGrid_appStep:
  assumes "sceneOnGrid (realm app)"
  shows "sceneOnGrid (realm (appStep app e))"
proof (cases e)
  case (PointerDown pick)
  with assms show ?thesis by (simp add: sceneOnGrid_onPointerDown)
next
  case (PointerMove hit)
  with assms show ?thesis by (simp add: sceneOnGrid_onPointerMove)
next
  case PointerUp
  show ?thesis
  proof (cases "onPointerUp True (assets app) (realm app)")
    case (Pair s' calls)
    with sceneOnGrid_onPointerUp [OF assms, of True "assets app"] have "sceneOnGrid s'"
      by simp
    with Pair PointerUp show ?thesis
      by (cases calls) (simp_all add: Let_def sceneOnGrid_remount)
  qed
qed

lemma sceneOnGrid_run: "sceneOnGrid (realm app) \<Longrightarrow> sceneOnGrid (realm (run events app))"
  unfolding run_def
proof (induction events arbitrary: app)
  case Nil
  then show ?case by simp
next
  case (Cons e events)
  from Cons.prems have "sceneOnGrid (realm (appStep app e))"
    by (rule sceneOnGrid_appStep)
  then have "sceneOnGrid (realm (foldl appStep (appStep app e) events))"
    by (rule Cons.IH)
  then show ?case by simp
qed

text \<open>
  Claim C5. The world-to-cell conversion of the snapping path gives a cell of the
  grid for every point. After a pointer-move of a session to any point, the drop
  cell that pointer-up computes from the position of the dragged mesh is that cell.
  In every state reached from a mounted scene, the drop cell of the position of
  every mesh is in the grid, and so is the cell of every call that pointer-up makes.
\<close>

theorem clamping:
  "inGrid (worldToCell p) \<and>
   (activeDrag s = Some (i, m) \<longrightarrow>
      dropCell (position (buildings (onPointerMove current (Some p) s) ! i)) = worldToCell p) \<and>
   (\<forall>b\<in>set (buildings (realm (run events (mountApp initial)))). inGrid (dropCell (position b))) \<and>
   (\<forall>call\<in>set (snd (onPointerUp hasCallback current (realm (run events (mountApp initial))))).
      inGrid (snd call))"
proof -
  let ?s = "realm (run events (mountApp initial))"
  have "sceneOnGrid (realm (mountApp initial))"
    by (simp add: mountApp_def sceneOnGrid_mountScene)
  then have reach: "sceneOnGrid ?s"
    by (rule sceneOnGrid_run)
  then have meshes: "\<forall>b\<in>set (buildings ?s). inGrid (dropCell (position b))"
    by (simp add: sceneOnGrid_def list_all_iff meshOnGrid_def)
  have calls: "\<forall>call\<in>set (snd (onPointerUp hasCallback current ?s)). inGrid (snd call)"
  proof (cases "activeDrag ?s")
    case None
    then show ?thesis by (simp add: onPointerUp_calls)
  next
    case (Some jm)
    obtain j d where jm: "jm = (j, d)" by (cases jm)
    from Some jm reach have "meshOnGrid d"
      by (simp add: activeDrag_mesh)
    with Some jm show ?thesis
      by (simp add: onPointerUp_calls meshOnGrid_def)
  qed
  from inGrid_worldToCell onPointerMove_dropCell meshes calls show ?thesis
    by blast
qed

theorem clamping_witness:
  "worldToCell (1000, -1000) = (10, 1) \<and>
   activeDrag (realm pickedE1) = Some (0, buildings (realm pickedE1) ! 0) \<and>
   dropCell (position (buildings (onPointerMove [E1, E2] (Some (1000, -1000))
     (realm pickedE1)) ! 0)) = (10, 1) \<and>
   snd (onPointerUp True [E1, E2] (realm (run [PointerDown (Some 0),
     PointerMove (Some (1000, -1000))] (mountApp [E1, E2])))) = [(''E1'', (10, 1))]"
proof -
  let ?events = "[PointerDown (Some 0), PointerMove (Some (1000, -1000))]"
  have cell: "worldToCell (1000, -1000) = (10, 1)"
    by (simp add: worldToCell_def session_eval)
  have session: "activeDrag (realm pickedE1) = Some (0, buildings (realm pickedE1) ! 0)"
    by (simp add: pickedE1_def session_eval)
  have calls: "snd (onPointerUp True [E1, E2] (realm (run ?events (mountApp [E1, E2])))) =
      [(''E1'', (10, 1))]"
    by (simp add: session_eval)
  from clamping [of "(1000, -1000)" "realm pickedE1" 0 "buildings (realm pickedE1) ! 0"
      "[E1, E2]" ?events "[E1, E2]" True] cell session calls
  show ?thesis
    by simp
qed

end
